theory Spec2Isabelle
  imports Complex_Main
begin

section \<open>MonitorNap: the per-monitor dimming controller\<close>

text \<open>
  A shallow embedding of \<^verbatim>\<open>MonitorController\<close> from \<^verbatim>\<open>monitornap.py\<close>.

  Modelling conventions.
  \<^item> Python \<^verbatim>\<open>int\<close> is \<open>int\<close>. A Python \<^verbatim>\<open>float\<close> is the rational number it denotes
    (\<open>rat\<close>), and every floating-point operation is the exact operation followed by
    \<open>fl\<close>, the rounding to the nearest IEEE 754 double. A float literal is rounded the
    same way: \<^verbatim>\<open>0.01\<close> is \<open>fl (1 / 100)\<close>. Small integer constants such as 100 and
    1000 are doubles themselves and are written as they are.
  \<^item> The physical monitors, the display enumeration, the pointer and the foreground
    window are the \<open>world\<close>; the controller's attributes are the record \<open>controller\<close>.
    Methods take both and return the updated ones.
  \<^item> An exception is the left injection of a sum; \<^verbatim>\<open>try/except Exception\<close> is a
    \<open>case\<close> that maps the left injection back to a normal result.
  \<^item> A \<^verbatim>\<open>QTimer\<close> callback is a tick function; running a timer until it stops is a
    recursive function over the ticks.
  \<^item> The libraries are taken at their interface: the enumerations
    \<^verbatim>\<open>get_monitors()\<close> and \<^verbatim>\<open>screeninfo.get_monitors()\<close> return the lists of the world
    and do not raise, a luminance read or write either succeeds or raises, and the
    overlay window keeps the opacity it is given.
\<close>

subsection \<open>Python primitives\<close>

datatype exn = ChannelError | IndexError

text \<open>\<^verbatim>\<open>int(x)\<close> on a float truncates towards zero.\<close>

definition py_int :: "rat \<Rightarrow> int" where
  "py_int x = (if 0 \<le> x then \<lfloor>x\<rfloor> else \<lceil>x\<rceil>)"

text \<open>\<^verbatim>\<open>round(x)\<close> on a float: the nearest integer, a tie goes to the even one.\<close>

definition py_round :: "rat \<Rightarrow> int" where
  "py_round x =
     (let f = \<lfloor>x\<rfloor>; d = x - of_int f
      in if d < 1 / 2 then f
         else if 1 / 2 < d then f + 1
         else if even f then f else f + 1)"

text \<open>
  The binary exponent of a positive rational: \<open>2 powi bexp x \<le> x < 2 powi (bexp x + 1)\<close>.
\<close>

function bexp :: "rat \<Rightarrow> int" where
  "bexp x = (if x \<le> 0 then 0
             else if x < 1 then bexp (2 * x) - 1
             else if 2 \<le> x then bexp (x / 2) + 1
             else 0)"
  by pat_completeness auto
termination
proof (relation "measure (\<lambda>x. nat \<lfloor>x\<rfloor> + 2 * nat \<lceil>1 / x\<rceil>)")
  show "wf (measure (\<lambda>x. nat \<lfloor>x\<rfloor> + 2 * nat \<lceil>1 / x\<rceil>))" by simp
next
  fix x :: rat
  assume a: "\<not> x \<le> 0" "x < 1"
  show "(2 * x, x) \<in> measure (\<lambda>x. nat \<lfloor>x\<rfloor> + 2 * nat \<lceil>1 / x\<rceil>)"
  proof (cases "2 * x < 1")
    case True
    then have f: "\<lfloor>2 * x\<rfloor> = 0" "\<lfloor>x\<rfloor> = 0" using a by (simp_all add: floor_eq_iff)
    have "1 / (2 * x) \<le> 1 / x - 1"
      using a True by (simp add: field_simps)
    then have "\<lceil>1 / (2 * x)\<rceil> \<le> \<lceil>1 / x - 1\<rceil>" by (rule ceiling_mono)
    then have "\<lceil>1 / (2 * x)\<rceil> < \<lceil>1 / x\<rceil>" by simp
    moreover have "0 < \<lceil>1 / x\<rceil>" using a by (simp add: field_simps)
    ultimately show ?thesis using f by simp
  next
    case False
    then have f: "\<lfloor>2 * x\<rfloor> = 1" "\<lfloor>x\<rfloor> = 0" using a by (simp_all add: floor_eq_iff)
    have "\<lceil>1 / (2 * x)\<rceil> = 1" using a False by (simp add: ceiling_eq_iff field_simps)
    moreover have "\<lceil>1 / x\<rceil> = 2" using a False by (simp add: ceiling_eq_iff field_simps)
    ultimately show ?thesis using f by simp
  qed
next
  fix x :: rat
  assume a: "\<not> x \<le> 0" "\<not> x < 1" "2 \<le> x"
  have c1: "\<lceil>1 / x\<rceil> = 1" using a by (simp add: ceiling_eq_iff field_simps)
  have c2: "\<lceil>1 / (x / 2)\<rceil> = 1" using a by (simp add: ceiling_eq_iff field_simps)
  have "x / 2 \<le> x - 1" using a by (simp add: field_simps)
  then have "\<lfloor>x / 2\<rfloor> \<le> \<lfloor>x - 1\<rfloor>" by (rule floor_mono)
  then have "\<lfloor>x / 2\<rfloor> < \<lfloor>x\<rfloor>" by simp
  moreover have "0 < \<lfloor>x\<rfloor>" using a by simp
  ultimately show "(x / 2, x) \<in> measure (\<lambda>x. nat \<lfloor>x\<rfloor> + 2 * nat \<lceil>1 / x\<rceil>)"
    using c1 c2 by simp
qed

declare bexp.simps [simp del]

text \<open>
  Rounding to the nearest double, a tie to the even significand: a double is a multiple
  of \<open>2 powi (e - 52)\<close> where \<open>e\<close> is the binary exponent of the number, not below -1022
  (the subnormal range). The largest exponent is not modelled: every float of the
  program is taken to stay below \<open>2 ^ 1024\<close>.
\<close>

definition fl :: "rat \<Rightarrow> rat" where
  "fl x = (if x = 0 then 0
           else let q = 2 powi (max (bexp \<bar>x\<bar>) (- 1022) - 52)
                in of_int (py_round (x / q)) * q)"

text \<open>
  Subscription \<^verbatim>\<open>xs[i]\<close> of a list: \<^verbatim>\<open>IndexError\<close> outside \<open>-len .. len - 1\<close>, and a
  negative position is taken from the end.
\<close>

definition py_index :: "'a list \<Rightarrow> int \<Rightarrow> exn + 'a" where
  "py_index xs i =
     (if i < - int (length xs) \<or> int (length xs) \<le> i then Inl IndexError
      else if i < 0 then Inr (xs ! nat (int (length xs) + i))
      else Inr (xs ! nat i))"

subsection \<open>The world: hardware channel, display enumeration, pointer\<close>

text \<open>
  One DDC/CI monitor as \<^verbatim>\<open>monitorcontrol\<close> presents it: its luminance, and whether a
  read or a write on it fails (cable disconnect, display without DDC).
\<close>

record ddc_monitor =
  luminance :: int
  read_fails :: bool
  write_fails :: bool

text \<open>One entry of \<^verbatim>\<open>screeninfo.get_monitors()\<close>.\<close>

record screen =
  scr_x :: int
  scr_y :: int
  scr_width :: int
  scr_height :: int

text \<open>
  \<open>foreground\<close> is \<open>None\<close> when there is no visible foreground window; otherwise it is
  the result of \<^verbatim>\<open>win32gui.GetWindowRect\<close>, which may raise.
\<close>

record world =
  ddc :: "ddc_monitor list"
  screens :: "screen list"
  cursor :: "int \<times> int"
  os_nt :: bool
  foreground :: "(exn + (int \<times> int \<times> int \<times> int)) option"

text \<open>
  \<^verbatim>\<open>with monitor: monitor.get_luminance()\<close> and \<^verbatim>\<open>monitor.set_luminance(value)\<close> on the
  handle \<open>h\<close> (the position of the monitor in \<^verbatim>\<open>get_monitors()\<close>).
\<close>

definition get_luminance :: "world \<Rightarrow> nat \<Rightarrow> exn + int" where
  "get_luminance w h =
     (if h < length (ddc w) \<and> \<not> read_fails (ddc w ! h)
      then Inr (luminance (ddc w ! h)) else Inl ChannelError)"

definition set_luminance :: "world \<Rightarrow> nat \<Rightarrow> int \<Rightarrow> exn + world" where
  "set_luminance w h v =
     (if h < length (ddc w) \<and> \<not> write_fails (ddc w ! h)
      then Inr (w\<lparr>ddc := (ddc w)[h := (ddc w ! h)\<lparr>luminance := v\<rparr>]\<rparr>)
      else Inl ChannelError)"

subsection \<open>Configuration and controller state\<close>

record monitor_cfg =
  enable_software_dimming :: bool
  enable_hardware_dimming :: bool
  hardware_dimming_level :: int
  software_dimming_level :: rat

record global_cfg =
  awake_mode :: bool
  inactivity_limit :: rat
  overlay_fade_time :: rat
  overlay_fade_steps :: int

text \<open>\<^verbatim>\<open>OverlayWindow\<close>: geometry, whether it is shown, and its window opacity.\<close>

record overlay_window =
  ov_geometry :: "int \<times> int \<times> int \<times> int"
  ov_visible :: bool
  ov_opacity :: rat

text \<open>
  The attributes of \<^verbatim>\<open>MonitorController\<close>. \<open>fade_timer\<close> is \<open>None\<close> before the first
  hardware fade, then \<open>Some active\<close>; \<open>fade_interval_ms\<close> is the interval given to that
  timer. \<open>overlay_pending\<close> holds the arguments of the \<^verbatim>\<open>_fade_overlay_step\<close> calls
  scheduled with \<^verbatim>\<open>QTimer.singleShot\<close> and not yet run.
\<close>

record controller =
  is_dimmed :: bool
  restore_in_progress :: bool
  last_active :: rat
  display_index :: int
  ddc_index :: int
  monitorcontrol_monitor :: "nat option"
  original_brightness :: "int option"
  geo_left :: int
  geo_top :: int
  geo_width :: int
  geo_height :: int
  overlay :: "overlay_window option"
  fade_timer :: "bool option"
  fade_interval_ms :: int
  current_fade_step :: int
  fade_steps :: int
  fade_start :: int
  fade_target :: int
  fade_step_size :: rat
  overlay_pending :: "(rat \<times> rat \<times> rat \<times> int) list"

subsection \<open>Geometry\<close>

text \<open>\<^verbatim>\<open>_update_geometry_from_system\<close>\<close>

definition update_geometry_from_system :: "world \<Rightarrow> controller \<Rightarrow> exn + controller" where
  "update_geometry_from_system w c =
     (let idx = display_index c; monitors = screens w
      in if 0 \<le> idx \<and> idx < int (length monitors)
         then (case py_index monitors idx of
                 Inl e \<Rightarrow> Inl e
               | Inr mon \<Rightarrow>
                   Inr (c\<lparr>geo_left := scr_x mon, geo_top := scr_y mon,
                          geo_width := scr_width mon, geo_height := scr_height mon\<rparr>))
         else Inr (c\<lparr>geo_left := 0, geo_top := 0, geo_width := 800, geo_height := 600\<rparr>))"

text \<open>\<^verbatim>\<open>refresh_geometry\<close>\<close>

definition refresh_geometry :: "world \<Rightarrow> controller \<Rightarrow> exn + controller" where
  "refresh_geometry w c =
     (let prev = (geo_left c, geo_top c, geo_width c, geo_height c)
      in case update_geometry_from_system w c of
           Inl e \<Rightarrow> Inl e
         | Inr c1 \<Rightarrow>
             (let now = (geo_left c1, geo_top c1, geo_width c1, geo_height c1)
              in case overlay c1 of
                   None \<Rightarrow> Inr c1
                 | Some ov \<Rightarrow>
                     if now \<noteq> prev
                     then Inr (c1\<lparr>overlay := Some (ov\<lparr>ov_geometry := now\<rparr>)\<rparr>)
                     else Inr c1))"

text \<open>\<^verbatim>\<open>set_indices\<close>\<close>

definition set_indices :: "world \<Rightarrow> int \<Rightarrow> int \<Rightarrow> controller \<Rightarrow> exn + controller" where
  "set_indices w new_display_index new_ddc_index c =
     (let c1 = c\<lparr>display_index := max 0 new_display_index,
                 ddc_index := max 0 new_ddc_index\<rparr>;
          all_mc = ddc w;
          c2 = c1\<lparr>monitorcontrol_monitor := None, original_brightness := None\<rparr>
      in if 0 \<le> ddc_index c2 \<and> ddc_index c2 < int (length all_mc)
         then (case py_index all_mc (ddc_index c2) of
                 Inl e \<Rightarrow> Inl e
               | Inr m \<Rightarrow>
                   (let c3 = c2\<lparr>monitorcontrol_monitor := Some (nat (ddc_index c2))\<rparr>;
                        c4 = (case get_luminance w (nat (ddc_index c2)) of
                                Inl e \<Rightarrow> c3
                              | Inr v \<Rightarrow> c3\<lparr>original_brightness := Some v\<rparr>)
                    in refresh_geometry w c4))
         else refresh_geometry w c2)"

subsection \<open>Hardware writes and the instant restore\<close>

text \<open>
  \<^verbatim>\<open>set_brightness\<close>: without a monitor handle nothing happens; an exception of the
  write is caught and logged.
\<close>

definition set_brightness :: "world \<Rightarrow> controller \<Rightarrow> int \<Rightarrow> exn + world" where
  "set_brightness w c v =
     (case monitorcontrol_monitor c of
        None \<Rightarrow> Inr w
      | Some h \<Rightarrow>
          (case set_luminance w h v of
             Inl e \<Rightarrow> Inr w
           | Inr w1 \<Rightarrow> Inr w1))"

text \<open>\<^verbatim>\<open>immediate_restore\<close>\<close>

definition immediate_restore :: "world \<Rightarrow> controller \<Rightarrow> exn + (world \<times> controller)" where
  "immediate_restore w c =
     (let c1 = (if fade_timer c = Some True then c\<lparr>fade_timer := Some False\<rparr> else c);
          hw = (case monitorcontrol_monitor c1 of
                  None \<Rightarrow> Inr w
                | Some h \<Rightarrow>
                    (case original_brightness c1 of
                       None \<Rightarrow> Inr w
                     | Some b \<Rightarrow> set_brightness w c1 b))
      in case hw of
           Inl e \<Rightarrow> Inl e
         | Inr w1 \<Rightarrow>
             (let c2 = (case overlay c1 of
                          None \<Rightarrow> c1
                        | Some ov \<Rightarrow>
                            c1\<lparr>overlay := Some (ov\<lparr>ov_visible := False, ov_opacity := 0\<rparr>)\<rparr>)
              in Inr (w1, c2\<lparr>is_dimmed := False\<rparr>)))"

text \<open>\<^verbatim>\<open>restore_dim\<close>\<close>

definition restore_dim :: "world \<Rightarrow> controller \<Rightarrow> exn + (world \<times> controller)" where
  "restore_dim w c = immediate_restore w (c\<lparr>is_dimmed := False\<rparr>)"

subsection \<open>The hardware fade\<close>

text \<open>
  \<^verbatim>\<open>fade_hardware\<close>. It reads the hardware and sets up the timer; the writes happen in
  the ticks of \<^verbatim>\<open>_do_fade\<close>.
\<close>

definition fade_hardware ::
    "monitor_cfg \<Rightarrow> global_cfg \<Rightarrow> world \<Rightarrow> bool \<Rightarrow> controller \<Rightarrow> controller" where
  "fade_hardware cfg g w down c =
     (if restore_in_progress c then c
      else
        let c1 = c\<lparr>restore_in_progress := True\<rparr>;
            read = (case monitorcontrol_monitor c1 of
                      None \<Rightarrow> None
                    | Some h \<Rightarrow>
                        (case get_luminance w h of
                           Inl e \<Rightarrow> None
                         | Inr v \<Rightarrow> Some v));
            start = (case read of
                       Some v \<Rightarrow> v
                     | None \<Rightarrow>
                         (case original_brightness c1 of Some b \<Rightarrow> b | None \<Rightarrow> 100));
            target =
              (if down
               then (let level = max 0 (min 100 (hardware_dimming_level cfg))
                     in max 0 (min 100
                          (py_round (fl (fl (of_int start)
                             * fl (1 - fl (fl (of_int level) / 100)))))))
               else (case original_brightness c1 of Some b \<Rightarrow> b | None \<Rightarrow> start));
            steps0 = overlay_fade_steps g;
            duration0 = overlay_fade_time g;
            duration = (if \<not> down then max (fl (1 / 100)) (fl (duration0 * fl (1 / 20)))
                        else duration0);
            steps1 = (if \<not> down then min steps0 3 else steps0);
            steps = (if steps1 \<le> 0 then 1 else steps1);
            interval_ms = py_int (fl (fl (duration / fl (of_int steps)) * 1000))
        in c1\<lparr>fade_step_size := fl (of_int (target - start) / of_int steps),
               current_fade_step := 0,
               fade_steps := steps,
               fade_start := start,
               fade_target := target,
               fade_interval_ms := interval_ms,
               fade_timer := Some True\<rparr>)"

text \<open>
  \<^verbatim>\<open>_do_fade\<close>, one tick of the hardware fade timer. The third component of the result
  is the value handed to \<^verbatim>\<open>set_brightness\<close> on this tick.
\<close>

definition do_fade :: "world \<Rightarrow> controller \<Rightarrow> exn + (world \<times> controller \<times> int)" where
  "do_fade w c =
     (let c1 = c\<lparr>current_fade_step := current_fade_step c + 1\<rparr>;
          new_value = fl (fl (of_int (fade_start c1))
                            + fl (fade_step_size c1 * fl (of_int (current_fade_step c1))))
      in if (fade_step_size c1 > 0 \<and> new_value \<ge> of_int (fade_target c1))
            \<or> (fade_step_size c1 < 0 \<and> new_value \<le> of_int (fade_target c1))
            \<or> current_fade_step c1 \<ge> fade_steps c1
         then (case set_brightness w c1 (fade_target c1) of
                 Inl e \<Rightarrow> Inl e
               | Inr w1 \<Rightarrow>
                   Inr (w1, c1\<lparr>fade_timer := Some False, restore_in_progress := False\<rparr>,
                        fade_target c1))
         else (case set_brightness w c1 (py_int new_value) of
                 Inl e \<Rightarrow> Inl e
               | Inr w1 \<Rightarrow> Inr (w1, c1, py_int new_value)))"

text \<open>
  The fade timer fires \<^verbatim>\<open>_do_fade\<close> until the callback stops it. A tick that leaves
  the timer running has advanced the step counter below \<open>fade_steps\<close>, so the chain of
  ticks is finite.
\<close>

lemma do_fade_active:
  assumes "do_fade w c = Inr (w1, c1, v)" and "fade_timer c1 = Some True"
  shows "current_fade_step c1 = current_fade_step c + 1 \<and> fade_steps c1 = fade_steps c
         \<and> current_fade_step c + 1 < fade_steps c"
  using assms
  by (auto simp: do_fade_def Let_def split: if_splits sum.splits)

function do_fade_run :: "world \<Rightarrow> controller \<Rightarrow> exn + (world \<times> controller \<times> int list)" where
  "do_fade_run w c =
     (case do_fade w c of
        Inl e \<Rightarrow> Inl e
      | Inr (w1, c1, v) \<Rightarrow>
          if fade_timer c1 = Some True
          then (case do_fade_run w1 c1 of
                  Inl e \<Rightarrow> Inl e
                | Inr (w2, c2, vs) \<Rightarrow> Inr (w2, c2, v # vs))
          else Inr (w1, c1, [v]))"
  by pat_completeness auto
termination
proof (relation "measure (\<lambda>(w, c). nat (fade_steps c - current_fade_step c))")
  show "wf (measure (\<lambda>(w, c). nat (fade_steps c - current_fade_step c)))" by simp
next
  fix w c x2 w1 y c1 v
  assume "do_fade w c = Inr x2" "(w1, y) = x2" "(c1, v) = y" "fade_timer c1 = Some True"
  then have "do_fade w c = Inr (w1, c1, v)" by simp
  from do_fade_active [OF this \<open>fade_timer c1 = Some True\<close>]
  show "((w1, c1), (w, c)) \<in> measure (\<lambda>(w, c). nat (fade_steps c - current_fade_step c))"
    by simp
qed

subsection \<open>The overlay fade\<close>

text \<open>
  \<^verbatim>\<open>_fade_overlay_step\<close>, one tick. The second component of the result is the call
  scheduled with \<^verbatim>\<open>QTimer.singleShot\<close>, if any.
\<close>

definition fade_overlay_step ::
    "overlay_window \<Rightarrow> rat \<Rightarrow> rat \<Rightarrow> rat \<Rightarrow> int
       \<Rightarrow> overlay_window \<times> (rat \<times> rat \<times> rat \<times> int) option" where
  "fade_overlay_step ov current target step_opacity delay =
     (let next0 = fl (current + step_opacity);
          next_val = (if (step_opacity > 0 \<and> next0 \<ge> target)
                         \<or> (step_opacity < 0 \<and> next0 \<le> target)
                      then target else next0);
          ov1 = ov\<lparr>ov_opacity := next_val\<rparr>
      in if \<bar>fl (next_val - target)\<bar> > fl (1 / 100)
         then (ov1, Some (next_val, target, step_opacity, delay))
         else if \<bar>target\<bar> < fl (1 / 100) then (ov1\<lparr>ov_visible := False\<rparr>, None)
         else (ov1, None))"

text \<open>
  The locals of \<^verbatim>\<open>fade_overlay\<close>: the step count, the step and the delay between two
  ticks in milliseconds.
\<close>

definition fade_overlay_plan :: "global_cfg \<Rightarrow> rat \<Rightarrow> rat \<Rightarrow> int \<times> rat \<times> int" where
  "fade_overlay_plan g current target_opacity =
     (let steps0 = overlay_fade_steps g;
          steps1 = (if steps0 \<le> 0 then 1 else steps0);
          total0 = overlay_fade_time g;
          total_time = (if target_opacity < current
                        then max (fl (1 / 100)) (fl (total0 * fl (1 / 20))) else total0);
          steps = (if target_opacity < current then min steps1 3 else steps1);
          step_opacity = fl (fl (target_opacity - current) / fl (of_int steps));
          step_delay_ms = max 1 (py_int (fl (fl (total_time / fl (of_int steps)) * 1000)))
      in (steps, step_opacity, step_delay_ms))"

text \<open>\<^verbatim>\<open>fade_overlay\<close>: the plan, then the first tick at once.\<close>

definition fade_overlay ::
    "global_cfg \<Rightarrow> rat \<Rightarrow> overlay_window
       \<Rightarrow> overlay_window \<times> (rat \<times> rat \<times> rat \<times> int) option" where
  "fade_overlay g target_opacity ov =
     (let current = ov_opacity ov
      in case fade_overlay_plan g current target_opacity of
           (steps, step_opacity, step_delay_ms) \<Rightarrow>
             fade_overlay_step ov current target_opacity step_opacity step_delay_ms)"

text \<open>
  The chain of single-shot timers run until no call is scheduled: the overlay at the end
  and the opacities applied, one per tick. \<open>None\<close> when the fuel runs out first.
\<close>

fun fade_overlay_run ::
    "nat \<Rightarrow> overlay_window \<Rightarrow> rat \<Rightarrow> rat \<Rightarrow> rat \<Rightarrow> int
       \<Rightarrow> (overlay_window \<times> rat list) option" where
  "fade_overlay_run 0 ov current target step_opacity delay = None"
| "fade_overlay_run (Suc n) ov current target step_opacity delay =
     (case fade_overlay_step ov current target step_opacity delay of
        (ov1, None) \<Rightarrow> Some (ov1, [ov_opacity ov1])
      | (ov1, Some (current1, target1, step1, delay1)) \<Rightarrow>
          (case fade_overlay_run n ov1 current1 target1 step1 delay1 of
             None \<Rightarrow> None
           | Some (ov2, vs) \<Rightarrow> Some (ov2, ov_opacity ov1 # vs)))"

subsection \<open>Dim, activity detection and the poll tick\<close>

text \<open>
  \<^verbatim>\<open>dim\<close>, here \<open>dim_monitor\<close> since the library has a constant of that name. Nothing in
  the body raises in this model (the read of \<^verbatim>\<open>fade_hardware\<close> is
  caught there), so the enclosing \<^verbatim>\<open>try/except\<close> has no branch. The hardware is only
  read, so the world is not returned.
\<close>

definition dim_monitor :: "monitor_cfg \<Rightarrow> global_cfg \<Rightarrow> world \<Rightarrow> controller \<Rightarrow> controller" where
  "dim_monitor cfg g w c =
     (if is_dimmed c then c
      else
        let c1 = c\<lparr>is_dimmed := True\<rparr>;
            c2 = (case overlay c1 of
                    None \<Rightarrow> c1
                  | Some ov \<Rightarrow>
                      if enable_software_dimming cfg
                      then (let target_opacity = max 0 (min 1 (software_dimming_level cfg))
                            in case fade_overlay g target_opacity (ov\<lparr>ov_visible := True\<rparr>) of
                                 (ov1, k) \<Rightarrow>
                                   c1\<lparr>overlay := Some ov1,
                                      overlay_pending :=
                                        overlay_pending c1
                                          @ (case k of None \<Rightarrow> [] | Some p \<Rightarrow> [p])\<rparr>)
                      else c1)
        in if enable_hardware_dimming cfg \<and> original_brightness c2 \<noteq> None
           then fade_hardware cfg g w True c2
           else c2)"

text \<open>\<^verbatim>\<open>is_monitor_active\<close>\<close>

definition is_monitor_active :: "world \<Rightarrow> controller \<Rightarrow> bool" where
  "is_monitor_active w c =
     (case cursor w of
        (x, y) \<Rightarrow>
          if geo_left c \<le> x \<and> x < geo_left c + geo_width c
             \<and> geo_top c \<le> y \<and> y < geo_top c + geo_height c
          then True
          else if os_nt w
          then (case foreground w of
                  None \<Rightarrow> False
                | Some (Inl e) \<Rightarrow> False
                | Some (Inr (win_left, win_top, win_right, win_bottom)) \<Rightarrow>
                    (let mon_left = geo_left c;
                         mon_top = geo_top c;
                         mon_right = geo_left c + geo_width c;
                         mon_bottom = geo_top c + geo_height c;
                         inter_left = max mon_left win_left;
                         inter_top = max mon_top win_top;
                         inter_right = min mon_right win_right;
                         inter_bottom = min mon_bottom win_bottom;
                         inter_w = max 0 (inter_right - inter_left);
                         inter_h = max 0 (inter_bottom - inter_top);
                         inter_area = inter_w * inter_h;
                         mon_area = max 1 (geo_width c * geo_height c)
                     in fl (of_int inter_area / of_int mon_area) \<ge> fl (95 / 100)))
          else False)"

text \<open>\<^verbatim>\<open>check_inactivity\<close>, the 1 Hz poll; \<open>now\<close> is \<^verbatim>\<open>time.time()\<close>.\<close>

definition check_inactivity ::
    "monitor_cfg \<Rightarrow> global_cfg \<Rightarrow> world \<Rightarrow> rat \<Rightarrow> controller
       \<Rightarrow> exn + (world \<times> controller)" where
  "check_inactivity cfg g w now c =
     (if awake_mode g
      then (if is_dimmed c then restore_dim w c else Inr (w, c))
      else if is_monitor_active w c
      then (let c1 = c\<lparr>last_active := now\<rparr>
            in if is_dimmed c1 then restore_dim w c1 else Inr (w, c1))
      else (let idle_time = fl (now - last_active c)
            in if idle_time \<ge> inactivity_limit g \<and> \<not> is_dimmed c
               then Inr (w, dim_monitor cfg g w c)
               else Inr (w, c)))"

subsection \<open>Observations used in the statements\<close>

text \<open>
  What \<^verbatim>\<open>immediate_restore\<close> asks of the hardware: with a monitor handle and a known
  \<open>original_brightness\<close>, one write of that value, which the monitor may refuse;
  otherwise nothing.
\<close>

definition hw_restored :: "world \<Rightarrow> controller \<Rightarrow> world" where
  "hw_restored w c =
     (case monitorcontrol_monitor c of
        None \<Rightarrow> w
      | Some h \<Rightarrow>
          (case original_brightness c of
             None \<Rightarrow> w
           | Some b \<Rightarrow> (case set_luminance w h b of Inl e \<Rightarrow> w | Inr w1 \<Rightarrow> w1)))"

text \<open>The two dimming channels: the luminance of every monitor and the overlay opacity.\<close>

definition channels :: "world \<Rightarrow> controller \<Rightarrow> int list \<times> rat option" where
  "channels w c = (map luminance (ddc w), map_option ov_opacity (overlay c))"

text \<open>
  The dim target in the words of the specification:
  \<^verbatim>\<open>clamp(round(start*(1-level/100)), 0, 100)\<close>.
\<close>

definition clamp :: "int \<Rightarrow> int \<Rightarrow> int \<Rightarrow> int" where
  "clamp x lo hi = (if x < lo then lo else if hi < x then hi else x)"

definition spec_dim_target :: "int \<Rightarrow> int \<Rightarrow> int" where
  "spec_dim_target start level =
     clamp (py_round (of_int start * (1 - of_int level / 100))) 0 100"

subsection \<open>Example states\<close>

definition world0 :: world where
  "world0 = \<lparr>ddc = [\<lparr>luminance = 100, read_fails = False, write_fails = False\<rparr>],
             screens = [\<lparr>scr_x = 0, scr_y = 0, scr_width = 1920, scr_height = 1080\<rparr>],
             cursor = (5000, 5000), os_nt = True, foreground = None\<rparr>"

definition cfg0 :: monitor_cfg where
  "cfg0 = \<lparr>enable_software_dimming = True, enable_hardware_dimming = True,
           hardware_dimming_level = 30, software_dimming_level = 1 / 2\<rparr>"

definition gcfg0 :: global_cfg where
  "gcfg0 = \<lparr>awake_mode = False, inactivity_limit = 10,
            overlay_fade_time = 1 / 2, overlay_fade_steps = 10\<rparr>"

text \<open>The controller as the constructor leaves it on \<open>world0\<close>.\<close>

definition ctl0 :: controller where
  "ctl0 = \<lparr>is_dimmed = False, restore_in_progress = False, last_active = 0,
           display_index = 0, ddc_index = 0,
           monitorcontrol_monitor = Some 0, original_brightness = Some 100,
           geo_left = 0, geo_top = 0, geo_width = 1920, geo_height = 1080,
           overlay = Some \<lparr>ov_geometry = (0, 0, 1920, 1080), ov_visible = False,
                            ov_opacity = 0\<rparr>,
           fade_timer = None, fade_interval_ms = 0, current_fade_step = 0,
           fade_steps = 0, fade_start = 0, fade_target = 0, fade_step_size = 0,
           overlay_pending = []\<rparr>"

text \<open>A monitor whose DDC/CI channel fails on every read and write.\<close>

definition world_failing :: world where
  "world_failing = world0\<lparr>ddc := [\<lparr>luminance = 70, read_fails = True, write_fails = True\<rparr>]\<rparr>"

text \<open>The controller once a dim with the default configuration has run to its end.\<close>

definition ctl_dimmed :: controller where
  "ctl_dimmed = ctl0\<lparr>is_dimmed := True, last_active := 5,
                     overlay := Some \<lparr>ov_geometry = (0, 0, 1920, 1080), ov_visible = True,
                                      ov_opacity = 1 / 2\<rparr>,
                     fade_timer := Some False, fade_interval_ms := 50,
                     current_fade_step := 10, fade_steps := 10, fade_start := 100,
                     fade_target := 70, fade_step_size := - 3\<rparr>"

text \<open>
  The user has lowered the brightness to 50 with the monitor's own buttons after the
  controller read 100 at start.
\<close>

definition world_lowered :: world where
  "world_lowered = world0\<lparr>ddc := [\<lparr>luminance = 50, read_fails = False, write_fails = False\<rparr>]\<rparr>"

text \<open>The hardware once a dim with the default configuration has run to its end.\<close>

definition world_dimmed :: world where
  "world_dimmed = world0\<lparr>ddc := [\<lparr>luminance = 70, read_fails = False, write_fails = False\<rparr>]\<rparr>"


text \<open>The dimmed hardware, with the pointer on the monitor.\<close>

definition world_present :: world where
  "world_present = world_dimmed\<lparr>cursor := (10, 10)\<rparr>"

text \<open>An overlay that has just been shown, still transparent.\<close>

definition overlay_shown :: overlay_window where
  "overlay_shown = \<lparr>ov_geometry = (0, 0, 1920, 1080), ov_visible = True, ov_opacity = 0\<rparr>"

text \<open>The controller of \<open>ctl0\<close> right after \<^verbatim>\<open>fade_hardware(down=True)\<close>.\<close>

definition ctl_fading :: controller where
  "ctl_fading = fade_hardware cfg0 gcfg0 world0 True ctl0"


text \<open>The hardware when the user has lowered the brightness to 45.\<close>

definition world_45 :: world where
  "world_45 = world0\<lparr>ddc := [\<lparr>luminance = 45, read_fails = False, write_fails = False\<rparr>]\<rparr>"

section \<open>Helper lemmas\<close>

subsection \<open>Rounding to a double\<close>

lemma bexp_bounds:
  assumes "0 < x"
  shows "2 powi bexp x \<le> x \<and> x < 2 powi (bexp x + 1)"
  using assms
proof (induction x rule: bexp.induct)
  case (1 x)
  show ?case
  proof (cases "x < 1")
    case True
    with 1 have IH: "2 powi bexp (2 * x) \<le> 2 * x \<and> 2 * x < 2 powi (bexp (2 * x) + 1)"
      by simp
    have e: "bexp x = bexp (2 * x) - 1" using True 1(3) by (simp add: bexp.simps [of x])
    have "(2 :: rat) powi (bexp (2 * x)) = 2 * 2 powi (bexp (2 * x) - 1)"
      using power_int_add_1 [of "2 :: rat" "bexp (2 * x) - 1"] by simp
    moreover have "(2 :: rat) powi (bexp (2 * x) + 1) = 2 * 2 powi (bexp (2 * x))"
      using power_int_add_1 [of "2 :: rat" "bexp (2 * x)"] by simp
    ultimately show ?thesis using IH unfolding e by simp
  next
    case False
    show ?thesis
    proof (cases "2 \<le> x")
      case True
      with 1 False have IH: "2 powi bexp (x / 2) \<le> x / 2 \<and> x / 2 < 2 powi (bexp (x / 2) + 1)"
        by simp
      have e: "bexp x = bexp (x / 2) + 1" using True False 1(3) by (simp add: bexp.simps [of x])
      have "(2 :: rat) powi (bexp (x / 2) + 1) = 2 * 2 powi (bexp (x / 2))"
        using power_int_add_1 [of "2 :: rat" "bexp (x / 2)"] by simp
      moreover have "(2 :: rat) powi (bexp (x / 2) + 1 + 1) = 2 * 2 powi (bexp (x / 2) + 1)"
        using power_int_add_1 [of "2 :: rat" "bexp (x / 2) + 1"] by simp
      ultimately show ?thesis using IH unfolding e by simp
    next
      case f2: False
      with False 1(3) have "bexp x = 0" by (simp add: bexp.simps [of x])
      with False f2 show ?thesis by simp
    qed
  qed
qed

lemma py_round_err: "\<bar>of_int (py_round z) - z\<bar> \<le> 1 / 2"
proof -
  have "of_int \<lfloor>z\<rfloor> \<le> z" "z < of_int \<lfloor>z\<rfloor> + 1" by linarith+
  then show ?thesis by (auto simp: py_round_def Let_def)
qed

lemma py_round_neg: "py_round (- z) = - py_round z"
proof (cases "z = of_int \<lfloor>z\<rfloor>")
  case True
  then obtain k where "z = of_int k" by blast
  then show ?thesis by (simp add: py_round_def Let_def)
next
  case False
  define f where "f = \<lfloor>z\<rfloor>"
  define d where "d = z - of_int f"
  have b: "of_int f \<le> z" "z < of_int f + 1" unfolding f_def by linarith+
  from False have ne: "of_int f \<noteq> z" unfolding f_def by metis
  from b(1) ne have "of_int f < z" by (rule le_neq_trans)
  with b have d: "0 < d" "d < 1" unfolding d_def by simp_all
  have fn: "\<lfloor>- z\<rfloor> = - f - 1"
  proof (rule floor_unique)
    show "of_int (- f - 1) \<le> - z" using b(2) by simp
    show "- z < of_int (- f - 1) + 1" using \<open>of_int f < z\<close> by simp
  qed
  have dn: "- z - of_int (- f - 1) = 1 - d" by (simp add: d_def)
  have pz: "py_round z = (if d < 1 / 2 then f else if 1 / 2 < d then f + 1
                          else if even f then f else f + 1)"
    unfolding py_round_def Let_def f_def [symmetric] d_def [symmetric] by (rule refl)
  have pn: "py_round (- z) = (if 1 - d < 1 / 2 then - f - 1 else if 1 / 2 < 1 - d then - f
                              else if even (- f - 1) then - f - 1 else - f)"
    unfolding py_round_def Let_def fn dn by simp
  show ?thesis unfolding pz pn using d by auto
qed

lemma py_round_nonneg: "0 \<le> z \<Longrightarrow> 0 \<le> py_round z"
  by (auto simp: py_round_def Let_def)


lemma fl_err: "\<bar>fl x - x\<bar> \<le> \<bar>x\<bar> / 2 ^ 53 + 1 / 2 ^ 1075"
proof (cases "x = 0")
  case True
  then show ?thesis by (simp add: fl_def)
next
  case False
  let ?e = "max (bexp \<bar>x\<bar>) (- 1022) - 52"
  let ?q = "(2 :: rat) powi ?e"
  have q: "0 < ?q" by simp
  have "\<bar>fl x - x\<bar> = \<bar>of_int (py_round (x / ?q)) - x / ?q\<bar> * ?q"
  proof -
    have "fl x - x = (of_int (py_round (x / ?q)) - x / ?q) * ?q"
      using False q by (simp add: fl_def Let_def field_simps)
    then show ?thesis using q by (simp add: abs_mult)
  qed
  also have "\<dots> \<le> 1 / 2 * ?q"
    using py_round_err [of "x / ?q"] q by (intro mult_right_mono) simp_all
  finally have h: "\<bar>fl x - x\<bar> \<le> ?q / 2" by simp
  show ?thesis
  proof (cases "- 1022 \<le> bexp \<bar>x\<bar>")
    case True
    then have "?e = bexp \<bar>x\<bar> - 53 + 1" by simp
    then have "?q = 2 powi (bexp \<bar>x\<bar> - 53) * 2"
      using power_int_add_1 [of "2 :: rat" "bexp \<bar>x\<bar> - 53"] by simp
    then have "?q / 2 = 2 powi bexp \<bar>x\<bar> * 2 powi (- 53)"
      using power_int_add [of "2 :: rat" "bexp \<bar>x\<bar>" "- 53"] by simp
    also have "\<dots> \<le> \<bar>x\<bar> * 2 powi (- 53)"
      using bexp_bounds [of "\<bar>x\<bar>"] False by (intro mult_right_mono) simp_all
    also have "(2 :: rat) powi (- 53) = 1 / 2 ^ 53"
      by (simp add: power_int_minus field_simps)
    finally have "?q / 2 \<le> \<bar>x\<bar> / 2 ^ 53" by simp
    moreover have "(0 :: rat) \<le> 1 / 2 ^ 1075" by simp
    ultimately show ?thesis using h by linarith
  next
    case False
    then have "?e = - 1074" by simp
    then have "?q / 2 = 1 / 2 ^ 1075"
      by (simp add: power_int_minus field_simps)
    moreover have "0 \<le> \<bar>x\<bar> / 2 ^ 53" by simp
    ultimately show ?thesis using h by linarith
  qed
qed

lemma fl_neg: "fl (- x) = - fl x"
  by (simp add: fl_def Let_def py_round_neg)

lemma fl_nonneg: "0 \<le> x \<Longrightarrow> 0 \<le> fl x"
  by (simp add: fl_def Let_def py_round_nonneg)


lemma fl_0 [simp]: "fl 0 = 0"
  by (simp add: fl_def)

text \<open>The absolute error of one rounding below a power of two.\<close>

lemma fl_err_4: "\<bar>x\<bar> \<le> 4 \<Longrightarrow> \<bar>fl x - x\<bar> \<le> 1 / 2 ^ 50"
proof -
  assume "\<bar>x\<bar> \<le> 4"
  then have "\<bar>x\<bar> / 2 ^ 53 \<le> 4 / 2 ^ 53" by (simp add: divide_right_mono)
  moreover have "(4 :: rat) / 2 ^ 53 + 1 / 2 ^ 1075 \<le> 1 / 2 ^ 50" by simp
  ultimately show ?thesis using fl_err [of x] by linarith
qed

lemma fl_err_128: "\<bar>x\<bar> \<le> 128 \<Longrightarrow> \<bar>fl x - x\<bar> \<le> 1 / 2 ^ 45"
proof -
  assume "\<bar>x\<bar> \<le> 128"
  then have "\<bar>x\<bar> / 2 ^ 53 \<le> 128 / 2 ^ 53" by (simp add: divide_right_mono)
  moreover have "(128 :: rat) / 2 ^ 53 + 1 / 2 ^ 1075 \<le> 1 / 2 ^ 45" by simp
  ultimately show ?thesis using fl_err [of x] by linarith
qed

text \<open>The constants of the program.\<close>

lemma fl_consts:
  "fl (1 / 100) = 5764607523034235 / 576460752303423488"
  "fl (1 / 20) = 3602879701896397 / 72057594037927936"
  by code_simp+

text \<open>Integers below \<open>2 ^ 53\<close> are doubles; \<^verbatim>\<open>round\<close> is the identity on integers.\<close>

lemma py_round_of_int [simp]: "py_round (of_int k) = k"
  by (simp add: py_round_def)

lemma py_round_unique:
  assumes "\<bar>z - of_int r\<bar> < 1 / 2"
  shows "py_round z = r"
proof (cases "of_int r \<le> z")
  case True
  with assms have "\<lfloor>z\<rfloor> = r" by (intro floor_unique) linarith+
  with assms True show ?thesis by (simp add: py_round_def Let_def)
next
  case False
  with assms have "\<lfloor>z\<rfloor> = r - 1" by (intro floor_unique) (simp, linarith)+
  with assms False show ?thesis by (simp add: py_round_def Let_def)
qed

lemma fl_of_int:
  assumes "\<bar>n\<bar> < 2 ^ 53"
  shows "fl (of_int n) = of_int n"
proof (cases "n = 0")
  case True
  then show ?thesis by simp
next
  case False
  define x :: rat where "x = \<bar>of_int n\<bar>"
  define e where "e = bexp x"
  have "1 \<le> \<bar>n\<bar>" using False by simp
  then have "(1 :: rat) \<le> of_int \<bar>n\<bar>" by (simp only: of_int_1_le_iff)
  then have x1: "1 \<le> x" by (simp add: x_def)
  have "(of_int \<bar>n\<bar> :: rat) < of_int (2 ^ 53)" using assms by (simp only: of_int_less_iff)
  then have xu: "x < 2 ^ 53" by (simp add: x_def)
  from bexp_bounds [of x] x1 have b: "2 powi e \<le> x" "x < 2 powi (e + 1)"
    by (simp_all add: e_def)
  have e0: "0 \<le> e"
  proof (rule ccontr)
    assume "\<not> 0 \<le> e"
    then have "e + 1 \<le> 0" by simp
    then have "(2 :: rat) powi (e + 1) \<le> 2 powi 0" by (intro power_int_increasing) simp_all
    with b x1 show False by simp
  qed
  have e52: "e \<le> 52"
  proof (rule ccontr)
    assume "\<not> e \<le> 52"
    then have "int 53 \<le> e" by simp
    then have "(2 :: rat) powi int 53 \<le> 2 powi e" by (intro power_int_increasing) simp_all
    then have "(2 :: rat) ^ 53 \<le> 2 powi e" by (simp only: power_int_of_nat)
    with b xu show False by simp
  qed
  define k where "k = nat (52 - e)"
  have "max e (- 1022) - 52 = - int k" using e0 e52 by (simp add: k_def)
  then have q: "(2 :: rat) powi (max e (- 1022) - 52) = 1 / 2 ^ k"
    by (simp add: power_int_minus_divide)
  have r: "of_int n / (1 / 2 ^ k) = (of_int (n * 2 ^ k) :: rat)" by simp
  have "fl (of_int n) = of_int (py_round (of_int n / (1 / 2 ^ k))) * (1 / 2 ^ k)"
    using False unfolding fl_def Let_def x_def [symmetric] e_def [symmetric] q by simp
  also have "\<dots> = of_int n" unfolding r py_round_of_int by simp
  finally show ?thesis .
qed

subsection \<open>State and hardware fade\<close>

lemma set_brightness_not_Inl [simp]: "set_brightness w c v \<noteq> Inl e"
  by (simp add: set_brightness_def split: option.splits sum.splits)

lemma refresh_geometry_Inr:
  "\<exists>c1. refresh_geometry w c = Inr c1 \<and> display_index c1 = display_index c
      \<and> ddc_index c1 = ddc_index c \<and> original_brightness c1 = original_brightness c
      \<and> monitorcontrol_monitor c1 = monitorcontrol_monitor c"
  by (auto simp: refresh_geometry_def update_geometry_from_system_def py_index_def Let_def
      split: option.splits sum.splits)

lemma restore_dim_eq:
  "restore_dim w c =
     Inr (hw_restored w c,
          c\<lparr>is_dimmed := False,
            fade_timer := (if fade_timer c = Some True then Some False else fade_timer c),
            overlay := map_option (\<lambda>ov. ov\<lparr>ov_visible := False, ov_opacity := 0\<rparr>) (overlay c)\<rparr>)"
  by (cases "monitorcontrol_monitor c"; cases "original_brightness c"; cases "overlay c")
     (simp_all add: restore_dim_def immediate_restore_def hw_restored_def set_brightness_def
        Let_def split: sum.splits)

lemma fade_hardware_keeps:
  "monitorcontrol_monitor (fade_hardware cfg g w down c) = monitorcontrol_monitor c"
  "original_brightness (fade_hardware cfg g w down c) = original_brightness c"
  "last_active (fade_hardware cfg g w down c) = last_active c"
  "overlay (fade_hardware cfg g w down c) = overlay c"
  "is_dimmed (fade_hardware cfg g w down c) = is_dimmed c"
  by (simp_all add: fade_hardware_def Let_def)

lemma dim_keeps:
  "monitorcontrol_monitor (dim_monitor cfg g w c) = monitorcontrol_monitor c"
  "original_brightness (dim_monitor cfg g w c) = original_brightness c"
  "last_active (dim_monitor cfg g w c) = last_active c"
  by (simp_all add: dim_monitor_def Let_def fade_hardware_keeps split: option.splits prod.splits)

lemma dim_overlay_Some:
  "overlay c = Some ov \<Longrightarrow> \<exists>ov1. overlay (dim_monitor cfg g w c) = Some ov1"
  by (simp add: dim_monitor_def Let_def fade_hardware_keeps split: option.splits prod.splits)

lemma hw_restored_same:
  assumes "\<And>h b. monitorcontrol_monitor c = Some h \<Longrightarrow> original_brightness c = Some b \<Longrightarrow>
             h < length (ddc w) \<Longrightarrow> luminance (ddc w ! h) = b"
  shows "map luminance (ddc (hw_restored w c)) = map luminance (ddc w)"
proof (cases "monitorcontrol_monitor c")
  case None
  then show ?thesis by (simp add: hw_restored_def)
next
  case (Some h)
  show ?thesis
  proof (cases "original_brightness c")
    case None
    with Some show ?thesis by (simp add: hw_restored_def)
  next
    case (Some b)
    show ?thesis
    proof (cases "h < length (ddc w) \<and> \<not> write_fails (ddc w ! h)")
      case True
      with assms [OF \<open>monitorcontrol_monitor c = Some h\<close> Some]
      have "luminance (ddc w ! h) = b" by simp
      with True Some \<open>monitorcontrol_monitor c = Some h\<close> show ?thesis
        by (simp add: hw_restored_def set_luminance_def map_update list_update_same_conv)
    next
      case False
      with Some \<open>monitorcontrol_monitor c = Some h\<close> show ?thesis
        by (auto simp: hw_restored_def set_luminance_def)
    qed
  qed
qed

lemma fade_hardware_start:
  assumes "\<not> restore_in_progress c"
  shows "fade_start (fade_hardware cfg g w down c) =
           (case monitorcontrol_monitor c of
              None \<Rightarrow> (case original_brightness c of Some b \<Rightarrow> b | None \<Rightarrow> 100)
            | Some h \<Rightarrow>
                (case get_luminance w h of
                   Inr v \<Rightarrow> v
                 | Inl e \<Rightarrow> (case original_brightness c of Some b \<Rightarrow> b | None \<Rightarrow> 100)))"
    and "fade_timer (fade_hardware cfg g w down c) = Some True"
    and "restore_in_progress (fade_hardware cfg g w down c)"
  using assms
  by (simp_all add: fade_hardware_def Let_def split: option.splits sum.splits)



lemma dim_dimmed: "is_dimmed c \<Longrightarrow> dim_monitor cfg g w c = c"
  by (simp add: dim_monitor_def)



declare do_fade_run.simps [simp del]

lemma py_int_le:
  assumes "x \<le> of_int t"
  shows "py_int x \<le> t"
proof (cases "0 \<le> x")
  case True
  have "\<lfloor>x\<rfloor> \<le> \<lfloor>(of_int t :: rat)\<rfloor>" using assms by (rule floor_mono)
  with True show ?thesis by (simp add: py_int_def)
next
  case False
  with assms show ?thesis by (simp add: py_int_def ceiling_le_iff)
qed

lemma py_int_ge:
  assumes "of_int t \<le> x"
  shows "t \<le> py_int x"
proof (cases "0 \<le> x")
  case True
  with assms show ?thesis by (simp add: py_int_def le_floor_iff)
next
  case False
  have "\<lceil>(of_int t :: rat)\<rceil> \<le> \<lceil>x\<rceil>" using assms by (rule ceiling_mono)
  with False show ?thesis by (simp add: py_int_def)
qed

lemma py_int_nonneg: "0 \<le> x \<Longrightarrow> py_int x = \<lfloor>x\<rfloor>"
  by (simp add: py_int_def)

lemma set_brightness_Inr: "\<exists>w1. set_brightness w c v = Inr w1"
  by (cases "set_brightness w c v") simp_all

text \<open>One tick of a running hardware fade either stops it on the target or goes on.\<close>

lemma do_fade_cases:
  assumes "fade_timer c = Some True"
  obtains (stop) w1 c1 where "do_fade w c = Inr (w1, c1, fade_target c)"
      and "fade_timer c1 = Some False" and "\<not> restore_in_progress c1"
  | (go) w1 v where
      "do_fade w c = Inr (w1, c\<lparr>current_fade_step := current_fade_step c + 1\<rparr>, v)"
      and "current_fade_step c + 1 < fade_steps c"
      and "0 < fade_step_size c \<longrightarrow> v \<le> fade_target c"
      and "fade_step_size c < 0 \<longrightarrow> fade_target c \<le> v"
proof -
  let ?k = "current_fade_step c + 1"
  let ?c1 = "c\<lparr>current_fade_step := ?k\<rparr>"
  let ?nv = "fl (fl (of_int (fade_start c)) + fl (fade_step_size c * fl (of_int ?k)))"
  let ?stop = "(fade_step_size c > 0 \<and> ?nv \<ge> of_int (fade_target c))
               \<or> (fade_step_size c < 0 \<and> ?nv \<le> of_int (fade_target c))
               \<or> ?k \<ge> fade_steps c"
  show thesis
  proof (cases ?stop)
    case True
    obtain w1 where "set_brightness w ?c1 (fade_target c) = Inr w1"
      using set_brightness_Inr by blast
    with True have "do_fade w c =
        Inr (w1, ?c1\<lparr>fade_timer := Some False, restore_in_progress := False\<rparr>, fade_target c)"
      by (simp add: do_fade_def Let_def)
    then show thesis by (rule stop) simp_all
  next
    case False
    obtain w1 where "set_brightness w ?c1 (py_int ?nv) = Inr w1"
      using set_brightness_Inr by blast
    with False have run: "do_fade w c = Inr (w1, ?c1, py_int ?nv)"
      by (auto simp: do_fade_def Let_def)
    from False have lt: "?k < fade_steps c" by simp
    have up: "0 < fade_step_size c \<longrightarrow> py_int ?nv \<le> fade_target c"
    proof
      assume "0 < fade_step_size c"
      with False have "?nv \<le> of_int (fade_target c)" by auto
      then show "py_int ?nv \<le> fade_target c" by (rule py_int_le)
    qed
    have down: "fade_step_size c < 0 \<longrightarrow> fade_target c \<le> py_int ?nv"
    proof
      assume "fade_step_size c < 0"
      with False have "of_int (fade_target c) \<le> ?nv" by auto
      then show "fade_target c \<le> py_int ?nv" by (rule py_int_ge)
    qed
    from run lt up down show thesis by (rule go)
  qed
qed

lemma do_fade_run_props:
  assumes "fade_timer c = Some True"
  shows "\<exists>w2 c2 vs. do_fade_run w c = Inr (w2, c2, vs) \<and> vs \<noteq> []
           \<and> last vs = fade_target c
           \<and> int (length vs) \<le> max 1 (fade_steps c - current_fade_step c)
           \<and> (\<forall>v\<in>set vs. (0 < fade_step_size c \<longrightarrow> v \<le> fade_target c)
                          \<and> (fade_step_size c < 0 \<longrightarrow> fade_target c \<le> v))
           \<and> fade_timer c2 = Some False \<and> \<not> restore_in_progress c2"
  using assms
proof (induction w c rule: do_fade_run.induct)
  case (1 w c)
  from \<open>fade_timer c = Some True\<close> show ?case
  proof (cases rule: do_fade_cases [where w = w])
    case (stop w1 c1)
    then have "do_fade_run w c = Inr (w1, c1, [fade_target c])"
      by (simp add: do_fade_run.simps [of w c])
    with stop show ?thesis by simp
  next
    case (go w1 v)
    let ?c1 = "c\<lparr>current_fade_step := current_fade_step c + 1\<rparr>"
    have act: "fade_timer ?c1 = Some True" using 1(2) by simp
    from "1.IH" [OF go(1) refl refl act act]
    obtain w2 c2 vs where r: "do_fade_run w1 ?c1 = Inr (w2, c2, vs)" "vs \<noteq> []"
      "last vs = fade_target c"
      "int (length vs) \<le> max 1 (fade_steps c - (current_fade_step c + 1))"
      "\<forall>v\<in>set vs. (0 < fade_step_size c \<longrightarrow> v \<le> fade_target c)
                   \<and> (fade_step_size c < 0 \<longrightarrow> fade_target c \<le> v)"
      "fade_timer c2 = Some False" "\<not> restore_in_progress c2"
      by auto
    from go(1) act r(1) have "do_fade_run w c = Inr (w2, c2, v # vs)"
      by (simp add: do_fade_run.simps [of w c])
    moreover from r(4) go(2)
    have "int (length (v # vs)) \<le> max 1 (fade_steps c - current_fade_step c)" by simp
    ultimately show ?thesis using r(2,3,5,6,7) go(3,4) by simp
  qed
qed

subsection \<open>The dim target in doubles\<close>

lemma fade_hardware_target_down:
  assumes "\<not> restore_in_progress c"
  shows "fade_target (fade_hardware cfg g w True c) =
           max 0 (min 100
             (py_round (fl (fl (of_int (fade_start (fade_hardware cfg g w True c)))
                * fl (1 - fl (fl (of_int (max 0 (min 100 (hardware_dimming_level cfg)))) / 100))))))"
  using assms by (simp add: fade_hardware_def Let_def)

lemma dim_target_err:
  fixes s l :: int
  assumes "0 \<le> s" "s \<le> 100" "0 \<le> l" "l \<le> 100"
  shows "\<bar>fl (fl (of_int s) * fl (1 - fl (fl (of_int l) / 100)))
           - of_int s * (1 - of_int l / 100)\<bar> \<le> 1 / 2 ^ 41"
proof -
  define S :: rat where "S = of_int s"
  define L :: rat where "L = of_int l"
  have S: "0 \<le> S" "S \<le> 100" and L: "0 \<le> L" "L \<le> 100"
    using assms by (simp_all add: S_def L_def)
  have fs: "fl (of_int s) = S" unfolding S_def using assms by (intro fl_of_int) simp
  have fL: "fl (of_int l) = L" unfolding L_def using assms by (intro fl_of_int) simp
  define c where "c = fl (L / 100)"
  define d where "d = fl (1 - c)"
  have "\<bar>L / 100\<bar> \<le> 4" using L by simp
  from fl_err_4 [OF this] have c: "\<bar>c - L / 100\<bar> \<le> 1 / 2 ^ 50" by (simp add: c_def)
  have "0 \<le> L / 100" "L / 100 \<le> 1" using L by simp_all
  moreover have "(1 :: rat) / 2 ^ 50 \<le> 1" by simp
  ultimately have "\<bar>1 - c\<bar> \<le> 4" using c by linarith
  from fl_err_4 [OF this] have "\<bar>d - (1 - c)\<bar> \<le> 1 / 2 ^ 50" by (simp add: d_def)
  with c have d: "\<bar>d - (1 - L / 100)\<bar> \<le> 2 / 2 ^ 50" by linarith
  have "S * d - S * (1 - L / 100) = S * (d - (1 - L / 100))" by (simp add: algebra_simps)
  then have "\<bar>S * d - S * (1 - L / 100)\<bar> = S * \<bar>d - (1 - L / 100)\<bar>"
    using S by (simp add: abs_mult)
  also have "\<dots> \<le> 100 * (2 / 2 ^ 50)" using S d by (intro mult_mono) simp_all
  finally have p: "\<bar>S * d - S * (1 - L / 100)\<bar> \<le> 100 * (2 / 2 ^ 50)" .
  have "0 \<le> S * (1 - L / 100)" using S L by simp
  moreover have "S * (1 - L / 100) \<le> 100 * 1" using S L by (intro mult_mono) simp_all
  moreover have "(100 :: rat) * (2 / 2 ^ 50) \<le> 1" by simp
  ultimately have "\<bar>S * d\<bar> \<le> 128" using p by linarith
  from fl_err_128 [OF this] have "\<bar>fl (S * d) - S * d\<bar> \<le> 1 / 2 ^ 45" .
  moreover have "(100 :: rat) * (2 / 2 ^ 50) + 1 / 2 ^ 45 \<le> 1 / 2 ^ 41" by simp
  ultimately have "\<bar>fl (S * d) - S * (1 - L / 100)\<bar> \<le> 1 / 2 ^ 41" using p by linarith
  then show ?thesis unfolding fs fL c_def [symmetric] d_def [symmetric]
    unfolding S_def L_def .
qed

lemma py_round_near:
  assumes "\<bar>y - x\<bar> \<le> e"
  shows "\<bar>of_int (py_round y) - x\<bar> \<le> 1 / 2 + e"
  using assms py_round_err [of y] by linarith

lemma py_round_stable:
  fixes k :: int
  assumes "k mod 100 \<noteq> 50" and "\<bar>y - of_int k / 100\<bar> \<le> 1 / 2 ^ 41"
  shows "py_round y = py_round (of_int k / 100)"
proof -
  define r where "r = py_round (of_int k / 100)"
  have "\<bar>(of_int r :: rat) - of_int k / 100\<bar> \<le> 1 / 2"
    unfolding r_def by (rule py_round_err)
  then have "\<bar>(of_int (100 * r - k) :: rat)\<bar> \<le> of_int 50" by (simp add: abs_le_iff field_simps)
  then have le: "\<bar>100 * r - k\<bar> \<le> 50" by (simp only: of_int_abs [symmetric] of_int_le_iff)
  have "\<bar>100 * r - k\<bar> \<noteq> 50"
  proof
    assume "\<bar>100 * r - k\<bar> = 50"
    then have "k = 50 + 100 * (r - 1) \<or> k = 50 + 100 * r" by (cases "k \<le> 100 * r") simp_all
    moreover have "(50 + 100 * (r - 1)) mod 100 = 50" by (simp only: mod_mult_self2) simp
    moreover have "(50 + 100 * r) mod 100 = 50" by (simp only: mod_mult_self2) simp
    ultimately have "k mod 100 = 50" by (elim disjE) simp_all
    with assms(1) show False by simp
  qed
  with le have "\<bar>100 * r - k\<bar> \<le> 49" by linarith
  then have "\<bar>(of_int (100 * r - k) :: rat)\<bar> \<le> of_int 49"
    by (simp only: of_int_abs [symmetric] of_int_le_iff)
  then have "\<bar>(of_int r :: rat) - of_int k / 100\<bar> \<le> 49 / 100" by (simp add: abs_le_iff field_simps)
  moreover have "(49 :: rat) / 100 + 1 / 2 ^ 41 < 1 / 2" by simp
  ultimately have "\<bar>y - of_int r\<bar> < 1 / 2" using assms(2) by linarith
  then show ?thesis unfolding r_def [symmetric] by (rule py_round_unique)
qed

section \<open>Geometry fallback\<close>

text \<open>
  C9. When \<open>display_index\<close> is outside the range of the display enumeration,
  \<^verbatim>\<open>_update_geometry_from_system\<close> does not raise and sets the rectangle to the default:
  origin (0, 0), size 800 x 600.
\<close>

theorem update_geometry_out_of_range:
  assumes "\<not> (0 \<le> display_index c \<and> display_index c < int (length (screens w)))"
  shows "update_geometry_from_system w c =
           Inr (c\<lparr>geo_left := 0, geo_top := 0, geo_width := 800, geo_height := 600\<rparr>)"
  using assms by (auto simp: update_geometry_from_system_def Let_def)

theorem update_geometry_out_of_range_witness:
  "\<not> (0 \<le> display_index (ctl0\<lparr>display_index := 3\<rparr>)
      \<and> display_index (ctl0\<lparr>display_index := 3\<rparr>) < int (length (screens world0)))
   \<and> update_geometry_from_system world0 (ctl0\<lparr>display_index := 3\<rparr>) =
       Inr (ctl0\<lparr>display_index := 3, geo_left := 0, geo_top := 0,
                  geo_width := 800, geo_height := 600\<rparr>)"
  using update_geometry_out_of_range [of "ctl0\<lparr>display_index := 3\<rparr>" world0]
  by (simp add: world0_def ctl0_def)

section \<open>Re-indexing\<close>

text \<open>
  C8. For every pair of integer inputs \<^verbatim>\<open>set_indices\<close> returns normally; a negative
  display or DDC index is clamped to 0; when the hardware probe fails (or there is no
  monitor at the index) \<open>original_brightness\<close> is \<open>None\<close> and the call still completes,
  and when the probe succeeds it is the value read.
\<close>

theorem set_indices_total:
  "\<exists>c1. set_indices w d h c = Inr c1
     \<and> display_index c1 = max 0 d \<and> ddc_index c1 = max 0 h
     \<and> (case get_luminance w (nat (max 0 h)) of
           Inl e \<Rightarrow> original_brightness c1 = None
         | Inr v \<Rightarrow> original_brightness c1 = Some v)"
proof -
  let ?c2 = "c\<lparr>display_index := max 0 d, ddc_index := max 0 h,
               monitorcontrol_monitor := None, original_brightness := None\<rparr>"
  show ?thesis
  proof (cases "max 0 h < int (length (ddc w))")
    case True
    then have idx: "py_index (ddc w) (max 0 h) = Inr (ddc w ! nat (max 0 h))"
      by (cases "0 \<le> h") (simp_all add: py_index_def max_def)
    show ?thesis
    proof (cases "get_luminance w (nat (max 0 h))")
      case (Inl e)
      with True idx
        refresh_geometry_Inr [of w "?c2\<lparr>monitorcontrol_monitor := Some (nat (max 0 h))\<rparr>"]
      show ?thesis by (auto simp: set_indices_def Let_def)
    next
      case (Inr v)
      with True idx
        refresh_geometry_Inr [of w "?c2\<lparr>monitorcontrol_monitor := Some (nat (max 0 h)),
                                         original_brightness := Some v\<rparr>"]
      show ?thesis by (auto simp: set_indices_def Let_def)
    qed
  next
    case False
    then have "get_luminance w (nat (max 0 h)) = Inl ChannelError"
      by (auto simp: get_luminance_def)
    with False refresh_geometry_Inr [of w ?c2]
    show ?thesis by (auto simp: set_indices_def Let_def)
  qed
qed

theorem set_indices_total_witness:
  "\<exists>c1. set_indices world_failing (- 2) (- 7) ctl0 = Inr c1
     \<and> display_index c1 = 0 \<and> ddc_index c1 = 0 \<and> original_brightness c1 = None"
  using set_indices_total [of world_failing "- 2" "- 7" ctl0]
  by (simp add: get_luminance_def world_failing_def world0_def)

section \<open>Instant restore\<close>

text \<open>
  C10. From every controller state (with its overlay window) \<^verbatim>\<open>immediate_restore\<close>
  returns normally with \<open>is_dimmed = False\<close>, the overlay hidden and the overlay opacity
  0, whatever the hardware does: a failing luminance write is swallowed by
  \<^verbatim>\<open>set_brightness\<close>.
\<close>

theorem immediate_restore_post:
  assumes "overlay c = Some ov"
  shows "\<exists>w1 c1. immediate_restore w c = Inr (w1, c1) \<and> \<not> is_dimmed c1
           \<and> overlay c1 = Some (ov\<lparr>ov_visible := False, ov_opacity := 0\<rparr>)"
  using assms
  by (auto simp: immediate_restore_def Let_def split: option.splits sum.splits)

theorem immediate_restore_post_witness:
  "\<exists>w1 c1. immediate_restore world_failing ctl_dimmed = Inr (w1, c1) \<and> \<not> is_dimmed c1
     \<and> overlay c1 = Some \<lparr>ov_geometry = (0, 0, 1920, 1080), ov_visible = False,
                           ov_opacity = 0\<rparr>"
  using immediate_restore_post [of ctl_dimmed
      "\<lparr>ov_geometry = (0, 0, 1920, 1080), ov_visible = True, ov_opacity = 1 / 2\<rparr>"
      world_failing]
  by (simp add: ctl_dimmed_def ctl0_def)

section \<open>Awake mode\<close>

text \<open>
  C2. While \<open>awake_mode\<close> is true, a tick of \<^verbatim>\<open>check_inactivity\<close> on a dimmed
  controller is the instant restore: it returns normally, the controller is no longer
  dimmed, the hardware has been asked for \<open>original_brightness\<close> (\<open>hw_restored\<close>), the
  overlay is hidden with opacity 0 and the hardware fade timer is not running. On a
  controller that is not dimmed the tick changes nothing, whatever the idle time. So
  every tick under \<open>awake_mode\<close> ends not dimmed and none enters the dimmed state.
\<close>

theorem awake_tick_not_dimmed:
  assumes "awake_mode g"
  shows "\<exists>w1 c1. check_inactivity cfg g w now c = Inr (w1, c1) \<and> \<not> is_dimmed c1
           \<and> (if is_dimmed c
               then w1 = hw_restored w c
                    \<and> overlay c1 = map_option (\<lambda>ov. ov\<lparr>ov_visible := False, ov_opacity := 0\<rparr>)
                                     (overlay c)
                    \<and> fade_timer c1 \<noteq> Some True
               else w1 = w \<and> c1 = c)"
  using assms by (simp add: check_inactivity_def restore_dim_eq)

theorem awake_tick_not_dimmed_witness:
  "awake_mode (gcfg0\<lparr>awake_mode := True\<rparr>) \<and> is_dimmed ctl_dimmed
   \<and> map luminance (ddc world_dimmed) = [70]
   \<and> (\<exists>w1 c1. check_inactivity cfg0 (gcfg0\<lparr>awake_mode := True\<rparr>) world_dimmed 100 ctl_dimmed
                  = Inr (w1, c1)
         \<and> \<not> is_dimmed c1
         \<and> map luminance (ddc w1) = [100]
         \<and> overlay c1 = Some \<lparr>ov_geometry = (0, 0, 1920, 1080), ov_visible = False,
                               ov_opacity = 0\<rparr>
         \<and> fade_timer c1 \<noteq> Some True)"
proof -
  have a: "awake_mode (gcfg0\<lparr>awake_mode := True\<rparr>)" by simp
  have d: "is_dimmed ctl_dimmed" by (simp add: ctl_dimmed_def)
  have l: "map luminance (ddc world_dimmed) = [70]" by (simp add: world_dimmed_def)
  have hw: "map luminance (ddc (hw_restored world_dimmed ctl_dimmed)) = [100]"
    by (simp add: hw_restored_def set_luminance_def world_dimmed_def world0_def
        ctl_dimmed_def ctl0_def)
  have ov: "map_option (\<lambda>ov. ov\<lparr>ov_visible := False, ov_opacity := 0\<rparr>) (overlay ctl_dimmed)
            = Some \<lparr>ov_geometry = (0, 0, 1920, 1080), ov_visible = False, ov_opacity = 0\<rparr>"
    by (simp add: ctl_dimmed_def)
  from awake_tick_not_dimmed [OF a, of cfg0 world_dimmed 100 ctl_dimmed] d l hw ov a
  show ?thesis by auto
qed

section \<open>Dim followed by restore\<close>

text \<open>
  C1 as stated fails: \<^verbatim>\<open>restore_dim\<close> writes the cached \<open>original_brightness\<close> and
  opacity 0, whatever the channels held before the dim. On a monitor the user has
  lowered to 50 after the controller read 100, dim then restore leaves 100; on a
  controller that is already dimmed (luminance 70, opacity 1/2) the dim is a no-op and
  the restore leaves 100 and 0.
\<close>

theorem dim_restore_counterexample:
  "channels world_lowered ctl0 = ([50], Some 0)
   \<and> map_sum id (case_prod channels) (restore_dim world_lowered (dim_monitor cfg0 gcfg0 world_lowered ctl0))
       = Inr ([100], Some 0)
   \<and> channels world_dimmed ctl_dimmed = ([70], Some (1 / 2))
   \<and> map_sum id (case_prod channels) (restore_dim world_dimmed (dim_monitor cfg0 gcfg0 world_dimmed ctl_dimmed))
       = Inr ([100], Some 0)"
proof -
  define D where "D = dim_monitor cfg0 gcfg0 world_lowered ctl0"
  have "overlay ctl0 \<noteq> None" by (simp add: ctl0_def)
  then obtain ovd where ovd: "overlay D = Some ovd"
    unfolding D_def using dim_overlay_Some [of ctl0 _ cfg0 gcfg0 world_lowered] by auto
  have m: "monitorcontrol_monitor D = Some 0" "original_brightness D = Some 100"
    unfolding D_def by (simp_all add: dim_keeps ctl0_def)
  have hw: "map luminance (ddc (hw_restored world_lowered D)) = [100]"
    using m by (simp add: hw_restored_def set_luminance_def world_lowered_def world0_def)
  have a: "channels world_lowered ctl0 = ([50], Some 0)"
    by (simp add: channels_def world_lowered_def world0_def ctl0_def)
  have b: "map_sum id (case_prod channels) (restore_dim world_lowered D) = Inr ([100], Some 0)"
    using hw ovd by (simp add: restore_dim_eq channels_def)
  have dd: "dim_monitor cfg0 gcfg0 world_dimmed ctl_dimmed = ctl_dimmed"
    by (rule dim_dimmed) (simp add: ctl_dimmed_def)
  have c: "channels world_dimmed ctl_dimmed = ([70], Some (1 / 2))"
    by (simp add: channels_def world_dimmed_def world0_def ctl_dimmed_def)
  have d: "map_sum id (case_prod channels) (restore_dim world_dimmed ctl_dimmed)
             = Inr ([100], Some 0)"
    by (simp add: restore_dim_eq channels_def hw_restored_def set_luminance_def
        world_dimmed_def world0_def ctl_dimmed_def ctl0_def)
  from a b c d show ?thesis unfolding D_def dd by simp
qed

text \<open>
  C1, amended. When before the dim the overlay opacity is 0 and the luminance of the
  controller's monitor equals the cached \<open>original_brightness\<close> (or no handle or no
  cached value is known), \<^verbatim>\<open>dim\<close> followed at once by \<^verbatim>\<open>restore_dim\<close> returns normally
  and leaves both channels, the luminance of every monitor and the overlay opacity,
  as they were before the dim.
\<close>

theorem dim_restore_round_trip:
  assumes "overlay c = Some ov" and "ov_opacity ov = 0"
    and "\<And>h b. monitorcontrol_monitor c = Some h \<Longrightarrow> original_brightness c = Some b \<Longrightarrow>
             h < length (ddc w) \<Longrightarrow> luminance (ddc w ! h) = b"
  shows "\<exists>w1 c1. restore_dim w (dim_monitor cfg g w c) = Inr (w1, c1)
           \<and> channels w1 c1 = channels w c"
proof -
  from dim_overlay_Some [OF assms(1)] obtain ovd where ovd: "overlay (dim_monitor cfg g w c) = Some ovd"
    by blast
  have "map luminance (ddc (hw_restored w (dim_monitor cfg g w c))) = map luminance (ddc w)"
    by (rule hw_restored_same) (simp_all add: dim_keeps assms(3))
  with ovd assms(1,2) show ?thesis
    by (simp add: restore_dim_eq channels_def)
qed

theorem dim_restore_round_trip_witness:
  "\<exists>w1 c1. restore_dim world0 (dim_monitor cfg0 gcfg0 world0 ctl0) = Inr (w1, c1)
     \<and> channels w1 c1 = ([100], Some 0)"
  using dim_restore_round_trip [of ctl0
      "\<lparr>ov_geometry = (0, 0, 1920, 1080), ov_visible = False, ov_opacity = 0\<rparr>"
      world0 cfg0 gcfg0]
  by (simp add: ctl0_def world0_def channels_def)

section \<open>Restore and the idle timer\<close>

text \<open>
  C7 as stated fails in its last part: \<^verbatim>\<open>restore_dim\<close> does not touch \<open>last_active\<close>. A
  controller dimmed with \<open>last_active = 5\<close> that the awake-mode tick restores at time
  100 still has \<open>last_active = 5\<close>.
\<close>

theorem restore_dim_idle_timer_counterexample:
  "last_active ctl_dimmed = 5
   \<and> map_sum id (last_active \<circ> snd) (restore_dim world_dimmed ctl_dimmed) = Inr 5
   \<and> map_sum id (last_active \<circ> snd)
        (check_inactivity cfg0 (gcfg0\<lparr>awake_mode := True\<rparr>) world_dimmed 100 ctl_dimmed)
       = Inr 5"
  by (simp add: restore_dim_eq check_inactivity_def ctl_dimmed_def gcfg0_def)

text \<open>
  C7, amended. From any state \<^verbatim>\<open>restore_dim\<close> returns normally with the controller not
  dimmed and the restore done at once: the hardware fade timer is not running, the
  overlay is hidden with opacity 0, and the hardware has been asked once for
  \<open>original_brightness\<close> (\<open>hw_restored\<close>). It leaves \<open>last_active\<close> as it was; the idle
  timer is reset by the caller: the presence branch of \<^verbatim>\<open>check_inactivity\<close> sets
  \<open>last_active\<close> to the current time and ends not dimmed.
\<close>

theorem restore_dim_forces_active:
  "(\<exists>w1 c1. restore_dim w c = Inr (w1, c1)
       \<and> \<not> is_dimmed c1 \<and> fade_timer c1 \<noteq> Some True
       \<and> overlay c1 = map_option (\<lambda>ov. ov\<lparr>ov_visible := False, ov_opacity := 0\<rparr>) (overlay c)
       \<and> w1 = hw_restored w c
       \<and> last_active c1 = last_active c)
   \<and> (\<not> awake_mode g \<and> is_monitor_active w c \<longrightarrow>
        (\<exists>w1 c1. check_inactivity cfg g w now c = Inr (w1, c1)
            \<and> \<not> is_dimmed c1 \<and> last_active c1 = now))"
  by (simp add: restore_dim_eq check_inactivity_def Let_def)

theorem restore_dim_forces_active_witness:
  "(\<exists>w1 c1. restore_dim world_present ctl_dimmed = Inr (w1, c1)
       \<and> \<not> is_dimmed c1 \<and> fade_timer c1 \<noteq> Some True
       \<and> map_option ov_opacity (overlay c1) = Some 0
       \<and> map luminance (ddc w1) = [100]
       \<and> last_active c1 = 5)
   \<and> \<not> awake_mode gcfg0
   \<and> is_monitor_active world_present ctl_dimmed
   \<and> (\<exists>w1 c1. check_inactivity cfg0 gcfg0 world_present 100 ctl_dimmed = Inr (w1, c1)
         \<and> \<not> is_dimmed c1 \<and> last_active c1 = 100)"
proof -
  have act: "is_monitor_active world_present ctl_dimmed"
    by (simp add: is_monitor_active_def world_present_def world_dimmed_def world0_def
        ctl_dimmed_def ctl0_def)
  have aw: "\<not> awake_mode gcfg0"
    by (simp add: gcfg0_def)
  have hw: "map luminance (ddc (hw_restored world_present ctl_dimmed)) = [100]"
    by (simp add: hw_restored_def set_luminance_def world_present_def world_dimmed_def
        world0_def ctl_dimmed_def ctl0_def)
  have ov: "map_option ov_opacity
              (map_option (\<lambda>ov. ov\<lparr>ov_visible := False, ov_opacity := 0\<rparr>) (overlay ctl_dimmed))
            = Some 0"
    by (simp add: ctl_dimmed_def)
  have la: "last_active ctl_dimmed = 5"
    by (simp add: ctl_dimmed_def)
  from restore_dim_forces_active [of world_present ctl_dimmed gcfg0 cfg0 100] act aw hw ov la
  show ?thesis by auto
qed

section \<open>The start value of the hardware fade\<close>




section \<open>The hardware dim target\<close>

text \<open>
  C4 as stated fails: the code computes \<^verbatim>\<open>start * (1 - level / 100.0)\<close> in doubles, and
  where the exact product is a tie the double can fall on the other side of it. With
  start 45 and level 30 the exact product is 31.5, which \<^verbatim>\<open>round\<close> takes to the even
  integer 32; the double \<^verbatim>\<open>1 - 0.3\<close> is just below 0.7, the product is just below
  31.5, and the target of the fade is 31.
\<close>

theorem dim_target_counterexample:
  "\<not> restore_in_progress ctl0
   \<and> hardware_dimming_level cfg0 = 30
   \<and> fade_start (fade_hardware cfg0 gcfg0 world_45 True ctl0) = 45
   \<and> fade_target (fade_hardware cfg0 gcfg0 world_45 True ctl0) = 31
   \<and> spec_dim_target 45 30 = 32"
proof -
  have h: "\<not> restore_in_progress ctl0" by (simp add: ctl0_def)
  have s: "fade_start (fade_hardware cfg0 gcfg0 world_45 True ctl0) = 45"
    by (simp add: fade_hardware_start h get_luminance_def world_45_def world0_def ctl0_def)
  have e: "py_round (fl (fl 45 * fl (1 - fl (fl 30 / 100)))) = 31" by code_simp
  have t: "fade_target (fade_hardware cfg0 gcfg0 world_45 True ctl0) = 31"
    unfolding fade_hardware_target_down [OF h] s by (simp add: cfg0_def e)
  have x: "spec_dim_target 45 30 = 32" by code_simp
  from h s t x show ?thesis by (simp add: cfg0_def)
qed

text \<open>
  C4, amended. For every level in 1..100 and every start value in 0..100, the target
  that \<^verbatim>\<open>fade_hardware(down=True)\<close> computes in doubles is an integer within
  \<open>1/2 + 1/2^41\<close> of the exact product \<^verbatim>\<open>start*(1-level/100)\<close>; it differs from
  \<^verbatim>\<open>clamp(round(start*(1-level/100)), 0, 100)\<close> read in exact arithmetic by at most 1;
  and the two are equal whenever the exact product is not a tie, that is whenever
  \<open>start * (100 - level)\<close> is not 50 modulo 100. Here start is the start value of the
  fade, and the flag \<open>restore_in_progress\<close> is clear, so that the fade is set up.
\<close>

theorem fade_hardware_dim_target:
  assumes "\<not> restore_in_progress c"
    and "1 \<le> hardware_dimming_level cfg" and "hardware_dimming_level cfg \<le> 100"
    and "0 \<le> fade_start (fade_hardware cfg g w True c)"
    and "fade_start (fade_hardware cfg g w True c) \<le> 100"
  shows "\<bar>of_int (fade_target (fade_hardware cfg g w True c))
           - of_int (fade_start (fade_hardware cfg g w True c))
               * (1 - of_int (hardware_dimming_level cfg) / 100)\<bar> \<le> (1 / 2 + 1 / 2 ^ 41 :: rat)
         \<and> \<bar>fade_target (fade_hardware cfg g w True c)
              - spec_dim_target (fade_start (fade_hardware cfg g w True c))
                  (hardware_dimming_level cfg)\<bar> \<le> 1
         \<and> ((fade_start (fade_hardware cfg g w True c) * (100 - hardware_dimming_level cfg))
               mod 100 \<noteq> 50
             \<longrightarrow> fade_target (fade_hardware cfg g w True c)
                   = spec_dim_target (fade_start (fade_hardware cfg g w True c))
                       (hardware_dimming_level cfg))"
proof -
  define s where "s = fade_start (fade_hardware cfg g w True c)"
  define l where "l = hardware_dimming_level cfg"
  define y where "y = fl (fl (of_int s) * fl (1 - fl (fl (of_int l) / 100)))"
  define x :: rat where "x = of_int s * (1 - of_int l / 100)"
  define R where "R = py_round y"
  define r where "r = py_round x"
  have s: "0 \<le> s" "s \<le> 100" and l: "1 \<le> l" "l \<le> 100"
    using assms by (simp_all add: s_def l_def)
  have ml: "max 0 (min 100 l) = l" using l by simp
  have T: "fade_target (fade_hardware cfg g w True c) = max 0 (min 100 R)"
    unfolding fade_hardware_target_down [OF assms(1)] R_def y_def s_def l_def [symmetric] ml ..
  have P: "spec_dim_target s l = max 0 (min 100 r)"
    by (simp add: spec_dim_target_def clamp_def r_def x_def max_def min_def)
  have yx: "\<bar>y - x\<bar> \<le> 1 / 2 ^ 41"
    unfolding y_def x_def using s l by (intro dim_target_err) simp_all
  have x0: "0 \<le> x" "x \<le> 100"
  proof -
    have a: "0 \<le> (of_int s :: rat)" "(of_int s :: rat) \<le> 100"
      "0 \<le> 1 - (of_int l :: rat) / 100" "1 - (of_int l :: rat) / 100 \<le> 1"
      using s l by simp_all
    then show "0 \<le> x" unfolding x_def by (intro mult_nonneg_nonneg)
    from a have "of_int s * (1 - of_int l / 100) \<le> (100 :: rat) * 1" by (intro mult_mono) simp_all
    then show "x \<le> 100" unfolding x_def by simp
  qed
  have small: "(1 :: rat) / 2 ^ 41 < 1 / 2" "(0 :: rat) \<le> 1 / 2 ^ 41" by simp_all
  have Rx: "\<bar>of_int R - x\<bar> \<le> 1 / 2 + 1 / 2 ^ 41"
    unfolding R_def using yx by (rule py_round_near)
  have rx: "\<bar>of_int r - x\<bar> \<le> 1 / 2" unfolding r_def by (rule py_round_err)
  have c1: "\<bar>of_int (max 0 (min 100 R)) - x\<bar> \<le> 1 / 2 + 1 / 2 ^ 41"
  proof (cases "R < 0")
    case True
    then have m: "max 0 (min 100 R) = 0" by simp
    from True have "(of_int R :: rat) \<le> 0" by simp
    with Rx x0 show ?thesis unfolding m by simp
  next
    case n: False
    show ?thesis
    proof (cases "100 < R")
      case True
      then have m: "max 0 (min 100 R) = 100" by simp
      from True have "(100 :: rat) \<le> of_int R" by simp
      with Rx x0 show ?thesis unfolding m by simp
    next
      case False
      with n have "max 0 (min 100 R) = R" by simp
      with Rx show ?thesis by simp
    qed
  qed
  have "\<bar>(of_int R :: rat) - of_int r\<bar> < 2" using Rx rx small by linarith
  then have "\<bar>(of_int (R - r) :: rat)\<bar> < of_int 2" by simp
  then have "\<bar>R - r\<bar> < 2" by (simp only: of_int_abs [symmetric] of_int_less_iff)
  then have c2: "\<bar>max 0 (min 100 R) - max 0 (min 100 r)\<bar> \<le> 1"
    by (auto simp: max_def min_def)
  have c3: "R = r" if "(s * (100 - l)) mod 100 \<noteq> 50"
  proof -
    have k: "x = of_int (s * (100 - l)) / 100" by (simp add: x_def field_simps)
    from yx have "\<bar>y - of_int (s * (100 - l)) / 100\<bar> \<le> 1 / 2 ^ 41" unfolding k .
    from py_round_stable [OF that this] show ?thesis unfolding R_def r_def k .
  qed
  from c3 have "(s * (100 - l)) mod 100 \<noteq> 50 \<longrightarrow> max 0 (min 100 R) = max 0 (min 100 r)"
    by simp
  with c1 c2 show ?thesis
    unfolding T s_def [symmetric] l_def [symmetric] P x_def [symmetric] by (intro conjI)
qed

theorem fade_hardware_dim_target_witness:
  "\<not> restore_in_progress ctl0
   \<and> 1 \<le> hardware_dimming_level cfg0 \<and> hardware_dimming_level cfg0 \<le> 100
   \<and> fade_start (fade_hardware cfg0 gcfg0 world0 True ctl0) = 100
   \<and> (100 * (100 - hardware_dimming_level cfg0)) mod 100 \<noteq> 50
   \<and> fade_target (fade_hardware cfg0 gcfg0 world0 True ctl0) = 70
   \<and> spec_dim_target 100 30 = 70"
proof -
  have h: "\<not> restore_in_progress ctl0" "1 \<le> hardware_dimming_level cfg0"
    "hardware_dimming_level cfg0 \<le> 100"
    by (simp_all add: ctl0_def cfg0_def)
  have s: "fade_start (fade_hardware cfg0 gcfg0 world0 True ctl0) = 100"
    by (simp add: fade_hardware_start h(1) get_luminance_def world0_def ctl0_def)
  have t: "spec_dim_target 100 30 = 70"
    by (simp add: spec_dim_target_def clamp_def py_round_def Let_def)
  have l: "hardware_dimming_level cfg0 = 30" by (simp add: cfg0_def)
  from fade_hardware_dim_target [OF h, of gcfg0 world0] h t
  show ?thesis unfolding s l by simp
qed

end
